theory Spec2Isabelle
  imports Complex_Main "HOL-Library.Sublist"
begin

section \<open>Text and bytes\<close>

text \<open>
  The plugin reads bytes from a socket and decodes them as UTF-8. A byte string is a list of
  \<^typ>\<open>char\<close> (an Isabelle character is one byte). A Python \<open>str\<close> is held as its UTF-8
  encoding: the encoding is injective, concatenation of strings is concatenation of
  encodings, and every separator the plugin searches for is ASCII, so \<open>endswith\<close>,
  \<open>split\<close> and \<open>in\<close> give the same answers on the encoding as on the code points.
\<close>

type_synonym bytes = string
type_synonym str = string

definition LF :: char where "LF = CHR 0x0A"
definition CR :: char where "CR = CHR 0x0D"
definition BSL :: char where "BSL = CHR 0x5C"

text \<open>\<open>data.endswith(t)\<close>: the last \<open>len(t)\<close> characters of \<open>data\<close> are \<open>t\<close>.\<close>

definition endswith :: "str \<Rightarrow> str \<Rightarrow> bool" where
  "endswith data t = (length t \<le> length data \<and> drop (length data - length t) data = t)"

text \<open>The two terminators as the source spells them: \<open>"msg=ok\n\r"\<close> and
  \<open>"msg=invalid\\schannelID\n\r"\<close> (a backslash, then \<open>s\<close>).\<close>

definition term_ok :: str where
  "term_ok = ''msg=ok'' @ [LF, CR]"

definition term_invalid_channel :: str where
  "term_invalid_channel = ''msg=invalid'' @ [BSL] @ ''schannelID'' @ [LF, CR]"

definition check_raw_data :: "str \<Rightarrow> bool" where
  "check_raw_data data =
     (if endswith data term_ok \<or> endswith data term_invalid_channel then True else False)"

section \<open>Python values the plugin coerces\<close>

datatype exn =
  KeyError | ValueError | AttributeError | TypeError | IndexError | UnicodeDecodeError | OSError

text \<open>\<open>s.split(sep)[0]\<close> for a non-empty separator: the text before its first occurrence,
  all of \<open>s\<close> when there is none.\<close>

fun first_piece :: "str \<Rightarrow> str \<Rightarrow> str" where
  "first_piece sep [] = []"
| "first_piece sep (c # cs) = (if prefix sep (c # cs) then [] else c # first_piece sep cs)"

text \<open>\<open>s.split(d)\<close> for a one-character separator: every occurrence cuts, so two
  separators in a row give an empty piece.\<close>

fun split_char :: "char \<Rightarrow> str \<Rightarrow> str list" where
  "split_char d [] = [[]]"
| "split_char d (c # cs) =
     (if c = d then [] # split_char d cs
      else (case split_char d cs of [] \<Rightarrow> [[c]] | p # ps \<Rightarrow> (c # p) # ps))"

text \<open>\<open>x.split("=", 1) if "=" in x else (x, "")\<close>: cut at the first \<open>=\<close>.\<close>

definition token :: "str \<Rightarrow> str \<times> str" where
  "token x =
     (if CHR ''='' \<in> set x
      then (takeWhile (\<lambda>c. c \<noteq> CHR ''='') x, tl (dropWhile (\<lambda>c. c \<noteq> CHR ''='') x))
      else (x, []))"

text \<open>\<open>dict(pairs)\<close>: a later pair with the same key replaces an earlier one.\<close>

definition dict_of :: "(str \<times> str) list \<Rightarrow> (str \<rightharpoonup> str)" where
  "dict_of kvs = map_of (rev kvs)"

text \<open>
  \<open>int(s)\<close> and \<open>float(s)\<close> of Python 3 on ASCII text: surrounding white space is stripped, a
  sign may lead, digits may be grouped by single underscores. (Python also accepts the
  decimal digits and spaces of other scripts; on such text these functions answer \<open>None\<close>.
  Python 2 rejects the underscores. The general results on the extractor hold whatever the
  two coercions accept.)
\<close>

definition is_space :: "char \<Rightarrow> bool" where
  "is_space c = (let n = (of_char c :: nat) in (9 \<le> n \<and> n \<le> 13) \<or> (28 \<le> n \<and> n \<le> 32))"

definition strip :: "str \<Rightarrow> str" where
  "strip s = rev (dropWhile is_space (rev (dropWhile is_space s)))"

definition is_digit :: "char \<Rightarrow> bool" where
  "is_digit c = (let n = (of_char c :: nat) in 48 \<le> n \<and> n \<le> 57)"

definition digit_val :: "char \<Rightarrow> nat" where
  "digit_val c = of_char c - 48"

text \<open>\<open>digitpart ::= digit (["_"] digit)*\<close>, giving the digits' values.\<close>

fun digitpart :: "str \<Rightarrow> nat list option" where
  "digitpart [] = None"
| "digitpart [c] = (if is_digit c then Some [digit_val c] else None)"
| "digitpart (c # d # cs) =
     (if is_digit c
      then (if d = CHR ''_'' then map_option ((#) (digit_val c)) (digitpart cs)
            else map_option ((#) (digit_val c)) (digitpart (d # cs)))
      else None)"

definition decimal :: "nat list \<Rightarrow> nat" where
  "decimal ds = foldl (\<lambda>a d. 10 * a + d) 0 ds"

definition signed :: "str \<Rightarrow> bool \<times> str" where
  "signed s =
     (case s of [] \<Rightarrow> (False, [])
      | c # cs \<Rightarrow> if c = CHR ''-'' then (True, cs) else if c = CHR ''+'' then (False, cs)
                  else (False, s))"

definition py_int :: "str \<Rightarrow> int option" where
  "py_int s =
     (let (neg, body) = signed (strip s)
      in map_option (\<lambda>ds. if neg then - int (decimal ds) else int (decimal ds))
           (digitpart body))"

text \<open>
  A Python float is an IEEE 754 binary64 number. A finite one is held as the rational it
  denotes (the two zeros are not told apart); \<open>round_double\<close> rounds a rational to the
  nearest such number, ties to the even significand, gradual underflow below \<open>2^-1022\<close>,
  infinity from \<open>2^1024\<close> on.
\<close>

datatype pyfloat = Finite rat | PosInf | NegInf | NaN

text \<open>The number of binary digits of a positive integer.\<close>

function bitlen :: "int \<Rightarrow> int" where
  "bitlen n = (if n \<le> 0 then 0 else 1 + bitlen (n div 2))"
  by pat_completeness auto
termination
  by (relation "measure nat") auto

declare bitlen.simps [simp del]

definition pow2 :: "int \<Rightarrow> rat" where
  "pow2 e = (if 0 \<le> e then 2 ^ nat e else 1 / 2 ^ nat (- e))"

text \<open>The integer \<open>e\<close> with \<open>2^e \<le> a < 2^(e+1)\<close>, for a positive \<open>a\<close>.\<close>

definition floor_log2 :: "rat \<Rightarrow> int" where
  "floor_log2 a =
     (if 1 \<le> a then bitlen \<lfloor>a\<rfloor> - 1
      else let k = bitlen \<lfloor>1 / a\<rfloor> - 1
           in if pow2 (- k) \<le> a then - k else - k - 1)"

definition round_half_even :: "rat \<Rightarrow> int" where
  "round_half_even x =
     (let f = \<lfloor>x\<rfloor>; r = x - of_int f
      in if r < 1 / 2 then f else if 1 / 2 < r then f + 1 else if even f then f else f + 1)"

definition round_double :: "rat \<Rightarrow> pyfloat" where
  "round_double x =
     (if x = 0 then Finite 0
      else let a = \<bar>x\<bar>;
               e = max (floor_log2 a) (- 1022);
               u = pow2 (e - 52);
               r = of_int (round_half_even (a / u)) * u
           in if pow2 1024 \<le> r then (if 0 < x then PosInf else NegInf)
              else Finite (if 0 < x then r else - r))"

text \<open>The product of two floats, rounded once.\<close>

fun fmul :: "pyfloat \<Rightarrow> pyfloat \<Rightarrow> pyfloat" where
  "fmul (Finite a) (Finite b) = round_double (a * b)"
| "fmul NaN _ = NaN"
| "fmul _ NaN = NaN"
| "fmul (Finite a) PosInf = (if a = 0 then NaN else if 0 < a then PosInf else NegInf)"
| "fmul (Finite a) NegInf = (if a = 0 then NaN else if 0 < a then NegInf else PosInf)"
| "fmul PosInf (Finite b) = (if b = 0 then NaN else if 0 < b then PosInf else NegInf)"
| "fmul NegInf (Finite b) = (if b = 0 then NaN else if 0 < b then NegInf else PosInf)"
| "fmul PosInf PosInf = PosInf"
| "fmul PosInf NegInf = NegInf"
| "fmul NegInf PosInf = NegInf"
| "fmul NegInf NegInf = PosInf"

definition lower :: "char \<Rightarrow> char" where
  "lower c = (let n = (of_char c :: nat) in if 65 \<le> n \<and> n \<le> 90 then char_of (n + 32) else c)"

text \<open>\<open>number ::= [digitpart] "." digitpart | digitpart ["."]\<close>: the digits before and
  after the point.\<close>

definition number :: "str \<Rightarrow> (nat list \<times> nat list) option" where
  "number m =
     (if CHR ''.'' \<in> set m
      then let ip = takeWhile (\<lambda>c. c \<noteq> CHR ''.'') m;
               fp = tl (dropWhile (\<lambda>c. c \<noteq> CHR ''.'') m)
           in if ip = [] \<and> fp = [] then None
              else (case (if ip = [] then Some [] else digitpart ip,
                          if fp = [] then Some [] else digitpart fp) of
                      (Some a, Some b) \<Rightarrow> Some (a, b)
                    | _ \<Rightarrow> None)
      else map_option (\<lambda>a. (a, [])) (digitpart m))"

text \<open>\<open>exponent ::= ("e" | "E") [sign] digitpart\<close>, without its first letter.\<close>

definition exponent :: "str \<Rightarrow> int option" where
  "exponent s =
     (let (neg, body) = signed s
      in map_option (\<lambda>ds. if neg then - int (decimal ds) else int (decimal ds))
           (digitpart body))"

definition pow10 :: "int \<Rightarrow> rat" where
  "pow10 e = (if 0 \<le> e then 10 ^ nat e else 1 / 10 ^ nat (- e))"

definition floatnumber :: "str \<Rightarrow> rat option" where
  "floatnumber s =
     (let m = takeWhile (\<lambda>c. lower c \<noteq> CHR ''e'') s;
          r = dropWhile (\<lambda>c. lower c \<noteq> CHR ''e'') s
      in case number m of
           None \<Rightarrow> None
         | Some (a, b) \<Rightarrow>
             (let v = of_nat (decimal (a @ b)) / 10 ^ length b
              in if r = [] then Some v
                 else map_option (\<lambda>e. v * pow10 e) (exponent (tl r))))"

definition py_float :: "str \<Rightarrow> pyfloat option" where
  "py_float s =
     (let (neg, body) = signed (strip s);
          w = map lower body
      in if w = ''inf'' \<or> w = ''infinity'' then Some (if neg then NegInf else PosInf)
         else if w = ''nan'' then Some NaN
         else map_option (\<lambda>v. round_double (if neg then - v else v)) (floatnumber body))"

section \<open>The metrics extractor\<close>

record metrics =
  connected_total :: int
  connected_queries :: int
  connected_users :: int
  ping :: pyfloat
  bandwidth_total_sent :: int
  bandwidth_total_received :: int
  bandwidth_filetransfer_sent :: int
  bandwidth_filetransfer_received :: int
  packetloss_speech :: pyfloat
  packetloss_keepalive :: pyfloat
  packetloss_control :: pyfloat
  packetloss_total :: pyfloat

text \<open>What \<open>self.error\<close> is called with: a message, or a caught exception.\<close>

datatype log = Error str | ErrorExn exn

definition bindE :: "exn + 'a \<Rightarrow> ('a \<Rightarrow> exn + 'b) \<Rightarrow> exn + 'b" where
  "bindE m f = (case m of Inl e \<Rightarrow> Inl e | Inr a \<Rightarrow> f a)"

text \<open>\<open>d[k]\<close>, \<open>int(d[k])\<close> and \<open>float(d[k])\<close> with the exception each raises.\<close>

definition item :: "(str \<rightharpoonup> str) \<Rightarrow> str \<Rightarrow> exn + str" where
  "item d k = (case d k of None \<Rightarrow> Inl KeyError | Some v \<Rightarrow> Inr v)"

definition int_item :: "(str \<rightharpoonup> str) \<Rightarrow> str \<Rightarrow> exn + int" where
  "int_item d k =
     bindE (item d k) (\<lambda>v. case py_int v of None \<Rightarrow> Inl ValueError | Some n \<Rightarrow> Inr n)"

definition float_item :: "(str \<rightharpoonup> str) \<Rightarrow> str \<Rightarrow> exn + pyfloat" where
  "float_item d k =
     bindE (item d k) (\<lambda>v. case py_float v of None \<Rightarrow> Inl ValueError | Some x \<Rightarrow> Inr x)"

text \<open>The dictionary \<open>d\<close> of \<open>_get_data\<close>: the first piece of the raw text before LF CR,
  cut at spaces, each token cut at its first \<open>=\<close>.\<close>

definition status_dict :: "str \<Rightarrow> (str \<rightharpoonup> str)" where
  "status_dict raw = dict_of (map token (split_char CHR '' '' (first_piece [LF, CR] raw)))"

text \<open>The body of the second \<open>try\<close> of \<open>_get_data\<close>, in the order the source evaluates it.
  \<open>raw\<close> is \<open>None\<close> when \<open>_get_raw_data\<close> returned \<open>None\<close>; \<open>None.split\<close> raises
  AttributeError.\<close>

definition get_data_body :: "str option \<Rightarrow> exn + metrics" where
  "get_data_body raw =
     (case raw of
        None \<Rightarrow> Inl AttributeError
      | Some r \<Rightarrow>
          (let d = status_dict r in
           bindE (int_item d ''virtualserver_clientsonline'') (\<lambda>ct.
           bindE (int_item d ''virtualserver_queryclientsonline'') (\<lambda>cq.
           bindE (float_item d ''virtualserver_total_ping'') (\<lambda>pg.
           bindE (int_item d ''connection_bandwidth_sent_last_second_total'') (\<lambda>bs.
           bindE (int_item d ''connection_bandwidth_received_last_second_total'') (\<lambda>br.
           bindE (int_item d ''connection_filetransfer_bandwidth_sent'') (\<lambda>fs.
           bindE (int_item d ''connection_filetransfer_bandwidth_received'') (\<lambda>fr.
           bindE (float_item d ''virtualserver_total_packetloss_speech'') (\<lambda>ps.
           bindE (float_item d ''virtualserver_total_packetloss_keepalive'') (\<lambda>pk.
           bindE (float_item d ''virtualserver_total_packetloss_control'') (\<lambda>pc.
           bindE (float_item d ''virtualserver_total_packetloss_total'') (\<lambda>pt.
           Inr \<lparr>connected_total = ct, connected_queries = cq, connected_users = ct - cq,
                ping = fmul pg (Finite 1000),
                bandwidth_total_sent = bs, bandwidth_total_received = br,
                bandwidth_filetransfer_sent = fs, bandwidth_filetransfer_received = fr,
                packetloss_speech = fmul ps (Finite 100000),
                packetloss_keepalive = fmul pk (Finite 100000),
                packetloss_control = fmul pc (Finite 100000),
                packetloss_total = fmul pt (Finite 100000)\<rparr>)))))))))))))"

text \<open>
  \<open>_get_data\<close>. Its argument is what \<open>self._get_raw_data()\<close> did (a method of the
  framework's SocketService): raised an exception, or returned \<open>None\<close> or the received
  text. The result is an exception that escapes to the host, or the returned value (\<open>None\<close>
  or the metrics) with the errors logged. UnicodeDecodeError is a ValueError.
\<close>

definition get_data :: "exn + str option \<Rightarrow> exn + metrics option \<times> log list" where
  "get_data got =
     (case got of
        Inl e \<Rightarrow>
          if e = ValueError \<or> e = UnicodeDecodeError \<or> e = AttributeError
          then Inr (None, [Error ''No data received.''])
          else Inl e
      | Inr raw \<Rightarrow>
          (case get_data_body raw of
             Inl e \<Rightarrow> Inr (None, [ErrorExn e])
           | Inr data \<Rightarrow> Inr (Some data, [])))"

text \<open>The status response of the scenario: one data line, LF CR, \<open>msg=ok\<close>, LF CR.\<close>

definition scenario_line :: str where
  "scenario_line = ''virtualserver_clientsonline=42 virtualserver_queryclientsonline=2 virtualserver_total_ping=0.05 connection_bandwidth_sent_last_second_total=1000 connection_bandwidth_received_last_second_total=2000 connection_filetransfer_bandwidth_sent=0 connection_filetransfer_bandwidth_received=0 virtualserver_total_packetloss_speech=0.001 virtualserver_total_packetloss_keepalive=0 virtualserver_total_packetloss_control=0 virtualserver_total_packetloss_total=0.001''"

definition scenario_raw :: str where
  "scenario_raw = scenario_line @ [LF, CR] @ ''msg=ok'' @ [LF, CR]"

section \<open>The service and its configuration\<close>

text \<open>
  A configuration value as the YAML loader hands it over: a string, an integer or \<open>None\<close>.
\<close>

datatype cval = Str str | Num int | Null

text \<open>
  The fields of \<open>Service\<close> the plugin reads or writes. \<open>sock\<close> tells whether \<open>self._sock\<close>
  is a socket (\<open>True\<close>) or \<open>None\<close>. \<open>sends\<close>, \<open>selects\<close> and \<open>recvs\<close> count the calls made so
  far to \<open>sock.send\<close>, \<open>select.select\<close> and \<open>sock.recv\<close>; \<open>sent\<close> lists what \<open>sock.send\<close>
  accepted, oldest first; \<open>logged\<close> lists what \<open>self.error\<close> was called with. (\<open>self.debug\<close>
  is not modelled.)
\<close>

record service =
  host :: str
  user :: cval
  passwd :: cval
  sid :: cval
  nickname :: cval
  channel_id :: cval
  request :: bytes
  sock :: bool
  sends :: nat
  selects :: nat
  recvs :: nat
  sent :: "bytes list"
  logged :: "log list"

text \<open>The state \<open>__init__\<close> leaves: no socket yet. (\<open>_parse_config\<close> of the framework
  encodes \<open>request\<close> to bytes.)\<close>

definition init :: service where
  "init = \<lparr>host = ''127.0.0.1'', user = Str [], passwd = Str [], sid = Num 1,
            nickname = Str ''netdata'', channel_id = Null, request = ''serverinfo'' @ [LF],
            sock = False, sends = 0, selects = 0, recvs = 0, sent = [], logged = []\<rparr>"

definition error :: "log \<Rightarrow> service \<Rightarrow> service" where
  "error msg s = s\<lparr>logged := logged s @ [msg]\<rparr>"

text \<open>\<open>pid.isdigit()\<close> and \<open>b'ts3server' in data\<close>.\<close>

definition isdigit :: "str \<Rightarrow> bool" where
  "isdigit s = (s \<noteq> [] \<and> list_all is_digit s)"

fun contains :: "bytes \<Rightarrow> bytes \<Rightarrow> bool" where
  "contains sub [] = (sub = [])"
| "contains sub (c # cs) = (prefix sub (c # cs) \<or> contains sub cs)"

text \<open>
  The loop of \<open>check\<close> over the numeric entries of \<open>/proc\<close>. Each entry carries what
  reading its \<open>cmdline\<close> gave: the bytes, or \<open>None\<close> for an IOError, which is logged and
  skipped. The result is \<open>ts3_running\<close>.
\<close>

fun scan_proc :: "(str \<times> bytes option) list \<Rightarrow> service \<Rightarrow> bool \<times> service" where
  "scan_proc [] s = (False, s)"
| "scan_proc ((pid, r) # ps) s =
     (case r of
        None \<Rightarrow> scan_proc ps (error (ErrorExn OSError) s)
      | Some cmdline \<Rightarrow> if contains ''ts3server'' cmdline then (True, s) else scan_proc ps s)"

text \<open>
  \<open>check\<close>, run on the state \<open>self._parse_config()\<close> left. \<open>configuration\<close> is the
  plugin's configuration dictionary; \<open>proc\<close> is what \<open>os.listdir('/proc')\<close> does: it raises,
  or lists the entries. The result is the exception that escapes, or the returned boolean
  and the state.
\<close>

definition check ::
  "(str \<rightharpoonup> cval) \<Rightarrow> exn + (str \<times> bytes option) list \<Rightarrow> service \<Rightarrow> exn + bool \<times> service"
where
  "check configuration proc s0 =
     (let no_user = Error ''Please specify a TeamSpeak Server query user inside the ts3.conf!'';
          no_pass = Error ''Please specify a TeamSpeak Server query password inside the ts3.conf!''
      in
      case configuration ''user'' of
        None \<Rightarrow> Inr (False, error no_user s0)
      | Some u \<Rightarrow>
          let s1 = s0\<lparr>user := u\<rparr> in
          if u = Str [] then Inr (False, error no_user s1)
          else
          (case configuration ''pass'' of
             None \<Rightarrow> Inr (False, error no_pass s1)
           | Some pw \<Rightarrow>
               let s2 = s1\<lparr>passwd := pw\<rparr> in
               if pw = Str [] then Inr (False, error no_pass s2)
               else
               let s3 = s2\<lparr>sid := (case configuration ''sid'' of None \<Rightarrow> Num 1 | Some v \<Rightarrow> v)\<rparr>;
                   s4 = s3\<lparr>nickname :=
                          (case configuration ''nickname'' of None \<Rightarrow> Str ''netdata''
                           | Some v \<Rightarrow> v)\<rparr>;
                   s5 = (case configuration ''channel_id'' of None \<Rightarrow> s4
                         | Some v \<Rightarrow> s4\<lparr>channel_id := v\<rparr>)
               in
               if host s5 = ''localhost'' \<or> host s5 = ''127.0.0.1'' then
                 (case proc of
                    Inl e \<Rightarrow> Inl e
                  | Inr entries \<Rightarrow>
                      let pids = filter (\<lambda>(pid, r). isdigit pid) entries;
                          (ts3_running, s6) = scan_proc pids s5
                      in if \<not> ts3_running
                         then Inr (False,
                                error (Error ''No local TeamSpeak server running. Disabling plugin...'') s6)
                         else Inr (True, s6))
               else Inr (True, s5)))"

section \<open>The socket and the framing layer\<close>

text \<open>
  \<open>buf.decode("utf-8")\<close>: the strict decoder accepts exactly the well-formed UTF-8 byte
  strings (shortest forms, no surrogates, nothing above U+10FFFF) and raises
  UnicodeDecodeError on any other. As a \<open>str\<close> is held as its encoding, a successful decode
  returns the bytes themselves.
\<close>

definition cont :: "char \<Rightarrow> bool" where
  "cont c = (let n = (of_char c :: nat) in 128 \<le> n \<and> n \<le> 191)"

definition second_of3 :: "nat \<Rightarrow> char \<Rightarrow> bool" where
  "second_of3 lead c =
     (let n = (of_char c :: nat)
      in if lead = 224 then 160 \<le> n \<and> n \<le> 191
         else if lead = 237 then 128 \<le> n \<and> n \<le> 159
         else 128 \<le> n \<and> n \<le> 191)"

definition second_of4 :: "nat \<Rightarrow> char \<Rightarrow> bool" where
  "second_of4 lead c =
     (let n = (of_char c :: nat)
      in if lead = 240 then 144 \<le> n \<and> n \<le> 191
         else if lead = 244 then 128 \<le> n \<and> n \<le> 143
         else 128 \<le> n \<and> n \<le> 191)"

fun utf8 :: "bytes \<Rightarrow> bool" where
  "utf8 [] = True"
| "utf8 [b] = ((of_char b :: nat) < 128)"
| "utf8 [b, c1] =
     ((of_char b :: nat) < 128 \<and> utf8 [c1] \<or>
      194 \<le> (of_char b :: nat) \<and> (of_char b :: nat) \<le> 223 \<and> cont c1)"
| "utf8 [b, c1, c2] =
     ((of_char b :: nat) < 128 \<and> utf8 [c1, c2] \<or>
      194 \<le> (of_char b :: nat) \<and> (of_char b :: nat) \<le> 223 \<and> cont c1 \<and> utf8 [c2] \<or>
      224 \<le> (of_char b :: nat) \<and> (of_char b :: nat) \<le> 239 \<and>
        second_of3 (of_char b) c1 \<and> cont c2)"
| "utf8 (b # c1 # c2 # c3 # r) =
     ((of_char b :: nat) < 128 \<and> utf8 (c1 # c2 # c3 # r) \<or>
      194 \<le> (of_char b :: nat) \<and> (of_char b :: nat) \<le> 223 \<and> cont c1 \<and> utf8 (c2 # c3 # r) \<or>
      224 \<le> (of_char b :: nat) \<and> (of_char b :: nat) \<le> 239 \<and>
        second_of3 (of_char b) c1 \<and> cont c2 \<and> utf8 (c3 # r) \<or>
      240 \<le> (of_char b :: nat) \<and> (of_char b :: nat) \<le> 244 \<and>
        second_of4 (of_char b) c1 \<and> cont c2 \<and> cont c3 \<and> utf8 r)"

definition decode :: "bytes \<Rightarrow> str option" where
  "decode buf = (if utf8 buf then Some buf else None)"

text \<open>
  What the world outside does at each call on the socket: whether \<open>super()._connect()\<close>
  leaves a socket; for the k-th \<open>sock.send\<close>, the exception it raises, if any; for the k-th
  \<open>select.select\<close>, whether the socket is readable within the five seconds; for the k-th
  \<open>sock.recv\<close>, the bytes it returns or the exception it raises; and the time stamp
  \<open>datetime.now().strftime(...)\<close> produces.
\<close>

datatype selected = Readable | TimedOut | SelectRaises exn

record env =
  can_connect :: bool
  send_result :: "nat \<Rightarrow> exn option"
  select_result :: "nat \<Rightarrow> selected"
  recv_result :: "nat \<Rightarrow> exn + bytes"
  now :: str

text \<open>
  A call returns a value or raises, and leaves a state either way. A function that may not
  return gets fuel: \<open>None\<close> says the fuel ran out before the call returned.
\<close>

datatype 'a outcome = Returns 'a service | Raises exn service

text \<open>\<open>self._sock.send(payload)\<close>: on \<open>None\<close> the attribute lookup raises; on a socket
  the transport says whether the call raises. (\<open>_connect\<close> hands \<open>send\<close> a \<open>str\<close>, \<open>_disconnect\<close>
  bytes: Python 2 sends both, Python 3 raises TypeError on the \<open>str\<close>, which is then one of
  the transport's answers.)\<close>

definition sock_send :: "env \<Rightarrow> bytes \<Rightarrow> service \<Rightarrow> exn \<times> service + service" where
  "sock_send w payload s =
     (if \<not> sock s then Inl (AttributeError, s)
      else case send_result w (sends s) of
             None \<Rightarrow> Inr (s\<lparr>sends := sends s + 1, sent := sent s @ [payload]\<rparr>)
           | Some e \<Rightarrow> Inl (e, s\<lparr>sends := sends s + 1\<rparr>))"

text \<open>\<open>select.select([self._sock], [], [], 5)\<close>: \<open>None\<close> in the list raises TypeError.\<close>

definition sock_select :: "env \<Rightarrow> service \<Rightarrow> selected \<times> service" where
  "sock_select w s =
     (if \<not> sock s then (SelectRaises TypeError, s)
      else (select_result w (selects s), s\<lparr>selects := selects s + 1\<rparr>))"

definition sock_recv :: "env \<Rightarrow> service \<Rightarrow> (exn + bytes) \<times> service" where
  "sock_recv w s = (recv_result w (recvs s), s\<lparr>recvs := recvs s + 1\<rparr>)"

text \<open>\<open>SocketService._connect\<close> and \<open>SocketService._disconnect\<close> of the framework: the
  first leaves a socket or \<open>None\<close> and raises nothing; the second closes the socket, if
  any, and sets \<open>self._sock = None\<close>.\<close>

definition super_connect :: "env \<Rightarrow> service \<Rightarrow> service" where
  "super_connect w s = s\<lparr>sock := can_connect w\<rparr>"

definition super_disconnect :: "service \<Rightarrow> service" where
  "super_disconnect s = s\<lparr>sock := False\<rparr>"

definition quit :: bytes where
  "quit = ''quit'' @ [LF]"

text \<open>
  \<open>_disconnect\<close>, \<open>_send\<close> and \<open>_receive\<close> call one another: \<open>_disconnect\<close> sends \<open>quit\<close> and
  receives once before closing; \<open>_send\<close> calls \<open>_disconnect\<close> when \<open>sock.send\<close> raises;
  \<open>_receive\<close> calls it when \<open>select\<close> raises or times out. \<open>receive_loop\<close> is the
  \<open>while True\<close> of \<open>_receive\<close> with \<open>data\<close> as accumulated so far. Every call and every
  iteration takes one unit of fuel.
\<close>

fun disconnect :: "env \<Rightarrow> nat \<Rightarrow> service \<Rightarrow> unit outcome option"
  and send :: "env \<Rightarrow> nat \<Rightarrow> bytes \<Rightarrow> service \<Rightarrow> bool outcome option"
  and receive :: "env \<Rightarrow> nat \<Rightarrow> service \<Rightarrow> str outcome option"
  and receive_loop :: "env \<Rightarrow> nat \<Rightarrow> str \<Rightarrow> service \<Rightarrow> str outcome option"
where
  "disconnect w 0 s = None"
| "disconnect w (Suc n) s =
     (case send w n quit s of
        None \<Rightarrow> None
      | Some (Raises e s1) \<Rightarrow> Some (Raises e s1)
      | Some (Returns _ s1) \<Rightarrow>
          (case receive w n s1 of
             None \<Rightarrow> None
           | Some (Raises e s2) \<Rightarrow> Some (Raises e s2)
           | Some (Returns _ s2) \<Rightarrow> Some (Returns () (super_disconnect s2))))"
| "send w 0 req s = None"
| "send w (Suc n) req s =
     (if request s \<noteq> [] then
        (case sock_send w (if req \<noteq> [] then req else request s) s of
           Inr s1 \<Rightarrow> Some (Returns True s1)
         | Inl (e, s1) \<Rightarrow>
             (case disconnect w n s1 of
                None \<Rightarrow> None
              | Some (Raises e' s2) \<Rightarrow> Some (Raises e' s2)
              | Some (Returns _ s2) \<Rightarrow> Some (Returns False (error (ErrorExn e) s2))))
      else Some (Returns True s))"
| "receive w 0 s = None"
| "receive w (Suc n) s = receive_loop w n [] s"
| "receive_loop w 0 data s = None"
| "receive_loop w (Suc n) data s =
     (case sock_select w s of
        (SelectRaises e, s1) \<Rightarrow>
          (case disconnect w n s1 of
             None \<Rightarrow> None
           | Some (Raises e' s2) \<Rightarrow> Some (Raises e' s2)
           | Some (Returns _ s2) \<Rightarrow> Some (Returns data s2))
      | (TimedOut, s1) \<Rightarrow>
          (case disconnect w n (error (Error ''Socket timed out.'') s1) of
             None \<Rightarrow> None
           | Some (Raises e' s2) \<Rightarrow> Some (Raises e' s2)
           | Some (Returns _ s2) \<Rightarrow> Some (Returns data s2))
      | (Readable, s1) \<Rightarrow>
          (case sock_recv w s1 of
             (Inl e, s2) \<Rightarrow> Some (Raises e s2)
           | (Inr buf, s2) \<Rightarrow>
               if buf = [] then Some (Returns data s2)
               else (case decode buf of
                       None \<Rightarrow> Some (Raises UnicodeDecodeError s2)
                     | Some t \<Rightarrow>
                         if check_raw_data (data @ t) then Some (Returns (data @ t) s2)
                         else receive_loop w n (data @ t) s2)))"

section \<open>The session protocol\<close>

text \<open>\<open>"{0}".format(v)\<close> and the truth value of \<open>v\<close> in \<open>if self.channel_id:\<close>.\<close>

fun show_nat :: "nat \<Rightarrow> str" where
  "show_nat n =
     (if n < 10 then [char_of (48 + n)] else show_nat (n div 10) @ [char_of (48 + n mod 10)])"

declare show_nat.simps [simp del]

definition show_int :: "int \<Rightarrow> str" where
  "show_int i = (if i < 0 then CHR ''-'' # show_nat (nat (- i)) else show_nat (nat i))"

fun fmt :: "cval \<Rightarrow> str" where
  "fmt (Str t) = t"
| "fmt (Num i) = show_int i"
| "fmt Null = ''None''"

fun truthy :: "cval \<Rightarrow> bool" where
  "truthy (Str t) = (t \<noteq> [])"
| "truthy (Num i) = (i \<noteq> 0)"
| "truthy Null = False"

text \<open>
  \<open>re.compile("client_id=(\d*)").findall(text)[0]\<close>: the digits (possibly none) that follow
  the leftmost \<open>client_id=\<close>; \<open>None\<close> when the text has no \<open>client_id=\<close>, where \<open>[0]\<close>
  raises IndexError. (Digits are the ASCII ones.)
\<close>

fun first_client_id :: "str \<Rightarrow> str option" where
  "first_client_id [] = None"
| "first_client_id (c # cs) =
     (if prefix ''client_id='' (c # cs)
      then Some (takeWhile is_digit (drop (length ''client_id='') (c # cs)))
      else first_client_id cs)"

text \<open>Sequencing: what follows a call runs only if the call returned.\<close>

definition bind ::
  "'a outcome option \<Rightarrow> ('a \<Rightarrow> service \<Rightarrow> 'b outcome option) \<Rightarrow> 'b outcome option"
where
  "bind m f =
     (case m of None \<Rightarrow> None | Some (Raises e s) \<Rightarrow> Some (Raises e s) | Some (Returns a s) \<Rightarrow> f a s)"

text \<open>The commands of \<open>_connect\<close>, formatted from the fields of the service.\<close>

definition login_cmd :: "service \<Rightarrow> bytes" where
  "login_cmd s = ''login '' @ fmt (user s) @ '' '' @ fmt (passwd s) @ [LF]"

definition use_cmd :: "service \<Rightarrow> bytes" where
  "use_cmd s = ''use sid='' @ fmt (sid s) @ [LF]"

definition clientupdate_cmd :: "env \<Rightarrow> service \<Rightarrow> bytes" where
  "clientupdate_cmd w s =
     ''clientupdate client_nickname='' @ fmt (nickname s) @ ''_'' @ now w @ [LF]"

definition whoami_cmd :: bytes where
  "whoami_cmd = ''whoami'' @ [LF]"

definition clientmove_cmd :: "str \<Rightarrow> service \<Rightarrow> bytes" where
  "clientmove_cmd clid s = ''clientmove clid='' @ clid @ '' cid='' @ fmt (channel_id s) @ [LF]"

text \<open>The body of the \<open>try\<close> of \<open>_connect\<close>. The values \<open>_send\<close> and \<open>_receive\<close> return
  are dropped, but for the response to \<open>whoami\<close>.\<close>

definition connect_try :: "env \<Rightarrow> nat \<Rightarrow> service \<Rightarrow> unit outcome option" where
  "connect_try w n s0 =
     bind (send w n (login_cmd s0) s0) (\<lambda>_ s1.
     bind (receive w n s1) (\<lambda>_ s2.
     bind (send w n (use_cmd s2) s2) (\<lambda>_ s3.
     bind (receive w n s3) (\<lambda>_ s4.
     bind (send w n (clientupdate_cmd w s4) s4) (\<lambda>_ s5.
     bind (receive w n s5) (\<lambda>_ s6.
     if truthy (channel_id s6) then
       bind (send w n whoami_cmd s6) (\<lambda>_ s7.
       bind (receive w n s7) (\<lambda>r s8.
         case first_client_id r of
           None \<Rightarrow> Some (Raises IndexError s8)
         | Some clid \<Rightarrow>
             bind (send w n (clientmove_cmd clid s8) s8) (\<lambda>_ s9.
             bind (receive w n s9) (\<lambda>_ s10. Some (Returns () s10)))))
     else Some (Returns () s6)))))))"

text \<open>\<open>_connect\<close>: the framework's connect, the \<open>try\<close>, and the handler of any exception:
  \<open>_disconnect\<close>, then the error is logged.\<close>

definition connect :: "env \<Rightarrow> nat \<Rightarrow> service \<Rightarrow> unit outcome option" where
  "connect w n s =
     (case connect_try w n (super_connect w s) of
        None \<Rightarrow> None
      | Some (Returns _ s1) \<Rightarrow> Some (Returns () s1)
      | Some (Raises e s1) \<Rightarrow>
          (case disconnect w n s1 of
             None \<Rightarrow> None
           | Some (Raises e' s2) \<Rightarrow> Some (Raises e' s2)
           | Some (Returns _ s2) \<Rightarrow> Some (Returns () (error (ErrorExn e) s2))))"

text \<open>The state after one command and its response, on a transport that accepts the send
  and answers with a complete response or with nothing (the peer has closed).\<close>

definition exchanged :: "bytes \<Rightarrow> service \<Rightarrow> service" where
  "exchanged q s =
     s\<lparr>sends := sends s + 1, sent := sent s @ [q], selects := selects s + 1,
       recvs := recvs s + 1\<rparr>"

section \<open>Transports used as examples\<close>

text \<open>A transport that accepts every send and delivers the given chunks, one per
  \<open>recv\<close>, each after a \<open>select\<close> that finds the socket readable; after the last chunk the
  peer has closed (\<open>recv\<close> returns no bytes).\<close>

definition deliver :: "bytes list \<Rightarrow> env" where
  "deliver chunks =
     \<lparr>can_connect = True, send_result = (\<lambda>k. None), select_result = (\<lambda>k. Readable),
      recv_result = (\<lambda>k. if k < length chunks then Inr (chunks ! k) else Inr []),
      now = ''2020-04-03_12:00:00''\<rparr>"


text \<open>Three deliveries of a response. In \<open>whole_chunks\<close> the two bytes of the accented
  letter arrive together, in \<open>split_chunks\<close> one per read; \<open>two_replies\<close> has a terminator
  at the end of its first chunk.\<close>

definition whole_chunks :: "bytes list" where
  "whole_chunks =
     [''virtualserver_name=Caf'', [CHR 0xC3, CHR 0xA9], '' error id=0 msg=ok'' @ [LF, CR]]"

definition split_chunks :: "bytes list" where
  "split_chunks =
     [''virtualserver_name=Caf'', [CHR 0xC3], [CHR 0xA9], '' error id=0 msg=ok'' @ [LF, CR]]"

definition two_replies :: "bytes list" where
  "two_replies = [''error id=0 msg=ok'' @ [LF, CR], ''error id=0 msg=ok'' @ [LF, CR]]"





text \<open>A session with a socket, as \<open>super()._connect()\<close> leaves it.\<close>

definition connected :: service where
  "connected = init\<lparr>sock := True\<rparr>"

text \<open>A configuration with both credentials, and one whose password is empty.\<close>

definition conf_ok :: "str \<rightharpoonup> cval" where
  "conf_ok = [''user'' \<mapsto> Str ''serveradmin'', ''pass'' \<mapsto> Str ''secret'']"

definition conf_empty_pass :: "str \<rightharpoonup> cval" where
  "conf_empty_pass = [''user'' \<mapsto> Str ''serveradmin'', ''pass'' \<mapsto> Str []]"





section \<open>Framing: the terminator test\<close>

lemma endswith_iff: "endswith data t \<longleftrightarrow> (\<exists>p. data = p @ t)"
proof
  assume h: "endswith data t"
  then have "data = take (length data - length t) data @ t"
    by (metis append_take_drop_id endswith_def)
  then show "\<exists>p. data = p @ t" by blast
next
  assume "\<exists>p. data = p @ t"
  then show "endswith data t" by (auto simp: endswith_def)
qed

text \<open>
  C2 (as the code has it). The receive loop takes the accumulated text for a complete
  response exactly when it ends with \<open>msg=ok\<close> or with \<open>msg=invalid\schannelID\<close>, each
  followed by a line feed and then a carriage return (LF, CR): some prefix followed by one of
  the two terminators. Text ending in neither is not complete.
\<close>

theorem check_raw_data_iff:
  "check_raw_data data \<longleftrightarrow>
     (\<exists>p. data = p @ ''msg=ok'' @ [CHR 0x0A, CHR 0x0D]) \<or>
     (\<exists>p. data = p @ ''msg=invalid'' @ [CHR 0x5C] @ ''schannelID'' @ [CHR 0x0A, CHR 0x0D])"
  by (simp add: check_raw_data_def endswith_iff term_ok_def term_invalid_channel_def
      LF_def CR_def BSL_def)

text \<open>
  The claim as written puts the carriage return first (CR, LF). On the code, text ending in
  \<open>msg=ok\<close>, CR, LF is not a complete response, and text ending in \<open>msg=ok\<close>, LF, CR is.
\<close>

theorem check_raw_data_crlf_counterexample:
  "\<not> check_raw_data (''error id=0 msg=ok'' @ [CHR 0x0D, CHR 0x0A]) \<and>
   check_raw_data (''error id=0 msg=ok'' @ [CHR 0x0A, CHR 0x0D])"
  by (simp add: check_raw_data_def endswith_def term_ok_def term_invalid_channel_def
      LF_def CR_def BSL_def)

section \<open>Evaluating the number model\<close>

lemma bitlen_nonpos: "n \<le> 0 \<Longrightarrow> bitlen n = 0"
  by (simp add: bitlen.simps)

lemma bitlen_pos: "0 < n \<Longrightarrow> bitlen n = 1 + bitlen (n div 2)"
  by (simp add: bitlen.simps)

lemma floor_rat_div_numeral:
  "\<lfloor>(numeral a :: rat) / numeral b\<rfloor> = numeral a div numeral b"
  using floor_divide_of_int_eq [of "numeral a" "numeral b", where ?'a = rat] by simp

lemma floor_rat_one_div_numeral:
  "\<lfloor>(1 :: rat) / numeral b\<rfloor> = 1 div numeral b"
  using floor_divide_of_int_eq [of 1 "numeral b", where ?'a = rat] by simp

lemmas rd = round_double_def round_half_even_def floor_log2_def pow2_def bitlen_nonpos bitlen_pos
  Let_def floor_rat_div_numeral floor_rat_one_div_numeral

section \<open>The scenario of the status line\<close>

lemma int_42: "py_int ''42'' = Some 42" by code_simp
lemma int_2: "py_int ''2'' = Some 2" by code_simp
lemma int_1000: "py_int ''1000'' = Some 1000" by code_simp
lemma int_2000: "py_int ''2000'' = Some 2000" by code_simp
lemma int_0: "py_int ''0'' = Some 0" by code_simp

lemma floatnumber_005: "floatnumber ''0.05'' = Some (1 / 20)"
  by (simp add: floatnumber_def number_def lower_def is_digit_def digit_val_def decimal_def)
lemma floatnumber_0001: "floatnumber ''0.001'' = Some (1 / 1000)"
  by (simp add: floatnumber_def number_def lower_def is_digit_def digit_val_def decimal_def)
lemma floatnumber_0: "floatnumber ''0'' = Some 0"
  by (simp add: floatnumber_def number_def lower_def is_digit_def digit_val_def decimal_def)

lemma dropWhile_hd: "xs \<noteq> [] \<Longrightarrow> \<not> P (hd xs) \<Longrightarrow> dropWhile P xs = xs"
  by (cases xs) auto

lemma strip_plain:
  assumes "s \<noteq> []" "\<not> is_space (hd s)" "\<not> is_space (last s)"
  shows "strip s = s"
proof -
  have "dropWhile is_space (rev s) = rev s"
    using assms by (intro dropWhile_hd) (simp_all add: hd_rev)
  then show ?thesis using assms by (simp add: strip_def dropWhile_hd)
qed

lemma float_005: "py_float ''0.05'' = Some (Finite (3602879701896397 / 72057594037927936))"
  by (simp add: py_float_def strip_plain is_space_def signed_def lower_def floatnumber_005 rd)
lemma float_0001: "py_float ''0.001'' = Some (Finite (1152921504606847 / 1152921504606846976))"
  by (simp add: py_float_def strip_plain is_space_def signed_def lower_def floatnumber_0001 rd)
lemma float_0: "py_float ''0'' = Some (Finite 0)"
  by (simp add: py_float_def strip_plain is_space_def signed_def lower_def floatnumber_0 rd)

lemma ping_50: "fmul (Finite (3602879701896397 / 72057594037927936)) (Finite 1000) = Finite 50"
  by (simp add: rd)
lemma loss_100: "fmul (Finite (1152921504606847 / 1152921504606846976)) (Finite 100000) = Finite 100"
  by (simp add: rd)
lemma loss_0: "fmul (Finite 0) (Finite 100000) = Finite 0"
  by (simp add: rd)

lemma scenario_first_piece: "first_piece [LF, CR] scenario_raw = scenario_line"
  by code_simp

lemma scenario_tokens: "map token (split_char CHR '' '' scenario_line) =
  [(''virtualserver_clientsonline'', ''42''), (''virtualserver_queryclientsonline'', ''2''),
   (''virtualserver_total_ping'', ''0.05''),
   (''connection_bandwidth_sent_last_second_total'', ''1000''),
   (''connection_bandwidth_received_last_second_total'', ''2000''),
   (''connection_filetransfer_bandwidth_sent'', ''0''),
   (''connection_filetransfer_bandwidth_received'', ''0''),
   (''virtualserver_total_packetloss_speech'', ''0.001''),
   (''virtualserver_total_packetloss_keepalive'', ''0''),
   (''virtualserver_total_packetloss_control'', ''0''),
   (''virtualserver_total_packetloss_total'', ''0.001'')]"
  by code_simp

lemma scenario_body: "get_data_body (Some scenario_raw) = Inr
       \<lparr>connected_total = 42, connected_queries = 2, connected_users = 40,
          ping = Finite 50, bandwidth_total_sent = 1000,
          bandwidth_total_received = 2000, bandwidth_filetransfer_sent = 0,
          bandwidth_filetransfer_received = 0,
          packetloss_speech = Finite 100, packetloss_keepalive = Finite 0,
          packetloss_control = Finite 0, packetloss_total = Finite 100\<rparr>"
  by (simp add: get_data_body_def status_dict_def dict_of_def scenario_first_piece
      scenario_tokens int_item_def float_item_def item_def bindE_def
      int_42 int_2 int_1000 int_2000 int_0 float_005 float_0001 float_0
      ping_50 loss_100 loss_0 del: fmul.simps)

text \<open>
  C4. On the scenario's raw response the extractor returns the record with
  connected_total 42, connected_queries 2, connected_users 40, ping 50.0 (0.05 scaled by
  1000), bandwidth_total_sent 1000, bandwidth_total_received 2000, packetloss_speech and
  packetloss_total 100.0 (0.001 scaled by 100000); the file-transfer bandwidths are 0 and
  the other two packet losses 0.0. Nothing is logged. The float results are those of
  binary64 arithmetic: \<open>float("0.05") * 1000\<close> rounds to exactly 50.
\<close>

theorem get_data_scenario:
  "get_data (Inr (Some (''virtualserver_clientsonline=42 virtualserver_queryclientsonline=2 virtualserver_total_ping=0.05 connection_bandwidth_sent_last_second_total=1000 connection_bandwidth_received_last_second_total=2000 connection_filetransfer_bandwidth_sent=0 connection_filetransfer_bandwidth_received=0 virtualserver_total_packetloss_speech=0.001 virtualserver_total_packetloss_keepalive=0 virtualserver_total_packetloss_control=0 virtualserver_total_packetloss_total=0.001'' @ [CHR 0x0A, CHR 0x0D] @ ''msg=ok'' @ [CHR 0x0A, CHR 0x0D]))) =
   Inr (Some
       \<lparr>connected_total = 42, connected_queries = 2, connected_users = 40,
          ping = Finite 50, bandwidth_total_sent = 1000,
          bandwidth_total_received = 2000, bandwidth_filetransfer_sent = 0,
          bandwidth_filetransfer_received = 0,
          packetloss_speech = Finite 100, packetloss_keepalive = Finite 0,
          packetloss_control = Finite 0, packetloss_total = Finite 100\<rparr>, [])"
  using scenario_body
  by (simp add: get_data_def scenario_raw_def scenario_line_def LF_def CR_def)

section \<open>The extractor on valid and on malformed status lines\<close>

















section \<open>check\<close>

lemma contains_iff: "contains sub bs \<longleftrightarrow> (\<exists>p q. bs = p @ sub @ q)"
proof (induction bs)
  case Nil
  then show ?case by auto
next
  case (Cons c cs)
  show ?case
  proof
    assume "contains sub (c # cs)"
    then consider "prefix sub (c # cs)" | "contains sub cs" by auto
    then show "\<exists>p q. c # cs = p @ sub @ q"
    proof cases
      case 1
      then obtain q where "c # cs = sub @ q" by (auto simp: prefix_def)
      then have "c # cs = [] @ sub @ q" by simp
      then show ?thesis by blast
    next
      case 2
      with Cons obtain p q where "cs = p @ sub @ q" by blast
      then have "c # cs = (c # p) @ sub @ q" by simp
      then show ?thesis by blast
    qed
  next
    assume "\<exists>p q. c # cs = p @ sub @ q"
    then obtain p q where pq: "c # cs = p @ sub @ q" by blast
    show "contains sub (c # cs)"
    proof (cases p)
      case Nil
      with pq have "prefix sub (c # cs)" by (simp add: prefix_def)
      then show ?thesis by simp
    next
      case (Cons a p')
      with pq have "cs = p' @ sub @ q" by simp
      with Cons.IH show ?thesis by auto
    qed
  qed
qed

lemma scan_proc_running:
  "fst (scan_proc ps s) \<longleftrightarrow> (\<exists>(pid, r) \<in> set ps. \<exists>cmdline. r = Some cmdline \<and> contains ''ts3server'' cmdline)"
  by (induction ps s rule: scan_proc.induct) (auto split: option.splits)

lemma found_iff:
  "(\<exists>(pid, r) \<in> set (filter (\<lambda>(pid, r). isdigit pid) entries).
      \<exists>cmdline. r = Some cmdline \<and> contains sub cmdline) \<longleftrightarrow>
   (\<exists>(pid, r) \<in> set entries. isdigit pid \<and>
      (\<exists>cmdline p q. r = Some cmdline \<and> cmdline = p @ sub @ q))"
  unfolding contains_iff by fastforce

text \<open>
  C9. If the configured user or the configured password is the empty string, \<open>check\<close>
  returns \<open>False\<close> (the framework then disables the collector) after logging an error, and
  nothing touches the socket: no socket is made, nothing is sent, selected or received.
\<close>

theorem check_empty_credentials:
  assumes "configuration ''user'' = Some (Str []) \<or> configuration ''pass'' = Some (Str [])"
  shows "\<exists>s'. check configuration proc s = Inr (False, s') \<and>
           sock s' = sock s \<and> sends s' = sends s \<and> selects s' = selects s \<and>
           recvs s' = recvs s \<and> sent s' = sent s \<and> logged s' \<noteq> logged s"
  using assms
  by (auto simp: check_def Let_def error_def split: option.splits)

theorem check_empty_credentials_witness:
  "conf_empty_pass ''pass'' = Some (Str []) \<and>
   (\<exists>s'. check conf_empty_pass (Inr []) init = Inr (False, s') \<and>
      sock s' = False \<and> sends s' = 0 \<and> sent s' = [])"
proof -
  have h: "conf_empty_pass ''user'' = Some (Str []) \<or> conf_empty_pass ''pass'' = Some (Str [])"
    by (simp add: conf_empty_pass_def)
  have p: "conf_empty_pass ''pass'' = Some (Str [])"
    by (simp add: conf_empty_pass_def)
  from check_empty_credentials [OF h, of "Inr []" init] obtain s' where
    "check conf_empty_pass (Inr []) init = Inr (False, s')"
    "sock s' = sock init" "sends s' = sends init" "sent s' = sent init"
    by blast
  moreover have "sock init = False" "sends init = 0" "sent init = []"
    by (simp_all add: init_def)
  ultimately have "check conf_empty_pass (Inr []) init = Inr (False, s') \<and>
      sock s' = False \<and> sends s' = 0 \<and> sent s' = []"
    by simp
  with p show ?thesis by blast
qed

text \<open>
  C10. With a user and a password configured and not empty: when the host is
  \<open>localhost\<close> or \<open>127.0.0.1\<close> and \<open>/proc\<close> can be listed, \<open>check\<close> returns whether some
  entry of \<open>/proc\<close> with an all-digit name has a readable command line containing
  \<open>ts3server\<close>, so it returns \<open>False\<close> without such a process however valid the
  configuration; for any other host \<open>/proc\<close> is not consulted and \<open>check\<close> returns \<open>True\<close>.
\<close>

theorem check_localhost:
  assumes "configuration ''user'' = Some u" "u \<noteq> Str []"
      and "configuration ''pass'' = Some pw" "pw \<noteq> Str []"
  shows "(host s = ''localhost'' \<or> host s = ''127.0.0.1'' \<longrightarrow>
            (\<forall>entries. proc = Inr entries \<longrightarrow>
               (\<exists>s'. check configuration proc s =
                  Inr (\<exists>(pid, r) \<in> set entries. isdigit pid \<and>
                         (\<exists>cmdline p q. r = Some cmdline \<and> cmdline = p @ ''ts3server'' @ q), s')))) \<and>
         (host s \<noteq> ''localhost'' \<and> host s \<noteq> ''127.0.0.1'' \<longrightarrow>
            (\<exists>s'. check configuration proc s = Inr (True, s')))"
proof (intro conjI impI allI)
  fix entries
  assume h: "host s = ''localhost'' \<or> host s = ''127.0.0.1''" and p: "proc = Inr entries"
  define s5 where "s5 = (case configuration ''channel_id'' of
      None \<Rightarrow> s\<lparr>user := u, passwd := pw,
                sid := (case configuration ''sid'' of None \<Rightarrow> Num 1 | Some v \<Rightarrow> v),
                nickname := (case configuration ''nickname'' of None \<Rightarrow> Str ''netdata'' | Some v \<Rightarrow> v)\<rparr>
    | Some v \<Rightarrow> s\<lparr>user := u, passwd := pw,
                sid := (case configuration ''sid'' of None \<Rightarrow> Num 1 | Some v \<Rightarrow> v),
                nickname := (case configuration ''nickname'' of None \<Rightarrow> Str ''netdata'' | Some v \<Rightarrow> v),
                channel_id := v\<rparr>)"
  have hs: "host s5 = host s" by (simp add: s5_def split: option.splits)
  let ?pids = "filter (\<lambda>(pid, r). isdigit pid) entries"
  obtain b s6 where sc: "scan_proc ?pids s5 = (b, s6)" by (cases "scan_proc ?pids s5")
  have b: "b \<longleftrightarrow> (\<exists>(pid, r) \<in> set entries. isdigit pid \<and>
                         (\<exists>cmdline p q. r = Some cmdline \<and> cmdline = p @ ''ts3server'' @ q))"
    using scan_proc_running [of ?pids s5] sc found_iff [of entries "''ts3server''"] by simp
  have c: "check configuration proc s =
      Inr (b, if b then s6
              else error (Error ''No local TeamSpeak server running. Disabling plugin...'') s6)"
    using assms h p sc hs unfolding check_def Let_def s5_def
    by (auto split: option.splits)
  show "\<exists>s'. check configuration proc s =
                  Inr (\<exists>(pid, r) \<in> set entries. isdigit pid \<and>
                         (\<exists>cmdline p q. r = Some cmdline \<and> cmdline = p @ ''ts3server'' @ q), s')"
    unfolding c b [symmetric] by blast
next
  assume "host s \<noteq> ''localhost'' \<and> host s \<noteq> ''127.0.0.1''"
  then show "\<exists>s'. check configuration proc s = Inr (True, s')"
    using assms by (auto simp: check_def Let_def split: option.splits)
qed


theorem check_localhost_witness:
  "(\<exists>s'. check conf_ok (Inr [(''1'', None), (''self'', Some ''ts3server'')]) init =
      Inr (False, s')) \<and>
   (\<exists>s'. check conf_ok (Inr [(''1'', None), (''4711'', Some ''/opt/ts3server -d'')]) init =
      Inr (True, s')) \<and>
   (\<exists>s'. check conf_ok (Inl OSError) (init\<lparr>host := ''ts.example.org''\<rparr>) = Inr (True, s'))"
proof -
  have u: "conf_ok ''user'' = Some (Str ''serveradmin'')" "Str ''serveradmin'' \<noteq> Str []"
    and pw: "conf_ok ''pass'' = Some (Str ''secret'')" "Str ''secret'' \<noteq> Str []"
    by (simp_all add: conf_ok_def)
  have d: "\<not> isdigit ''self''" "isdigit ''4711''"
    by (simp_all add: isdigit_def is_digit_def)
  have c: "''/opt/ts3server -d'' = ''/opt/'' @ ''ts3server'' @ '' -d''"
    by simp
  have 1: "\<exists>s'. check conf_ok (Inr [(''1'', None), (''self'', Some ''ts3server'')]) init =
      Inr (False, s')"
    using check_localhost [OF u pw, of init "Inr [(''1'', None), (''self'', Some ''ts3server'')]"] d
    by (simp add: init_def)
  have "\<exists>cmdline p q. Some ''/opt/ts3server -d'' = Some cmdline \<and> cmdline = p @ ''ts3server'' @ q"
    using c by blast
  then have 2: "\<exists>s'. check conf_ok (Inr [(''1'', None), (''4711'', Some ''/opt/ts3server -d'')]) init =
      Inr (True, s')"
    using check_localhost [OF u pw, of init "Inr [(''1'', None), (''4711'', Some ''/opt/ts3server -d'')]"] d
    by (simp add: init_def)
  have 3: "\<exists>s'. check conf_ok (Inl OSError) (init\<lparr>host := ''ts.example.org''\<rparr>) = Inr (True, s')"
    using check_localhost [OF u pw, of "init\<lparr>host := ''ts.example.org''\<rparr>" "Inl OSError"]
    by simp
  from 1 2 3 show ?thesis by blast
qed

section \<open>Fuel\<close>

text \<open>More fuel never changes what a call that returned (or raised) did.\<close>

lemma fuel_step:
  "(disconnect w n s = Some a \<longrightarrow> disconnect w (Suc n) s = Some a) \<and>
   (send w n q s = Some b \<longrightarrow> send w (Suc n) q s = Some b) \<and>
   (receive w n s = Some c \<longrightarrow> receive w (Suc n) s = Some c) \<and>
   (receive_loop w n d s = Some c' \<longrightarrow> receive_loop w (Suc n) d s = Some c')"
proof (induction n arbitrary: s q d a b c c')
  case 0
  show ?case by simp
next
  case (Suc n)
  have D: "disconnect w n s = Some a \<Longrightarrow> disconnect w (Suc n) s = Some a" for s a
    using Suc.IH by blast
  have S: "send w n q s = Some b \<Longrightarrow> send w (Suc n) q s = Some b" for s q b
    using Suc.IH by blast
  have R: "receive w n s = Some c \<Longrightarrow> receive w (Suc n) s = Some c" for s c
    using Suc.IH by blast
  have L: "receive_loop w n d s = Some c \<Longrightarrow> receive_loop w (Suc n) d s = Some c" for s d c
    using Suc.IH by blast
  have 1: "disconnect w (Suc (Suc n)) s = Some a" if h: "disconnect w (Suc n) s = Some a"
  proof -
    from h obtain x where x: "send w n quit s = Some x"
      by (auto split: option.splits)
    show ?thesis
    proof (cases x)
      case (Raises e s1)
      with h x S [OF x] show ?thesis by (simp del: send.simps receive.simps)
    next
      case (Returns u s1)
      with h x obtain y where y: "receive w n s1 = Some y"
        by (auto split: option.splits)
      with h x Returns S [OF x] R [OF y] show ?thesis
        by (simp del: send.simps receive.simps)
    qed
  qed
  have 2: "send w (Suc (Suc n)) q s = Some b" if h: "send w (Suc n) q s = Some b"
  proof (cases "request s \<noteq> []")
    case False
    with h show ?thesis by simp
  next
    case True
    show ?thesis
    proof (cases "sock_send w (if q \<noteq> [] then q else request s) s")
      case (Inr s1)
      with h True show ?thesis by simp
    next
      case (Inl p)
      obtain e s1 where p: "p = (e, s1)" by (cases p)
      with h True Inl obtain x where x: "disconnect w n s1 = Some x"
        by (auto split: option.splits)
      with h True Inl p D [OF x] show ?thesis
        by (simp del: disconnect.simps)
    qed
  qed
  have 3: "receive w (Suc (Suc n)) s = Some c" if h: "receive w (Suc n) s = Some c"
    using h L by (simp del: receive_loop.simps)
  have 4: "receive_loop w (Suc (Suc n)) d s = Some c'" if h: "receive_loop w (Suc n) d s = Some c'"
  proof -
    obtain r s1 where sel: "sock_select w s = (r, s1)" by (cases "sock_select w s")
    show ?thesis
    proof (cases r)
      case Readable
      obtain v s2 where rc: "sock_recv w s1 = (v, s2)" by (cases "sock_recv w s1")
      show ?thesis
      proof (cases v)
        case (Inl e)
        with h sel Readable rc show ?thesis by simp
      next
        case (Inr buf)
        show ?thesis
        proof (cases "buf \<noteq> [] \<and> (\<exists>t. decode buf = Some t \<and> \<not> check_raw_data (d @ t))")
          case False
          with h sel Readable rc Inr show ?thesis
            by (auto split: option.splits)
        next
          case True
          then obtain t where t: "buf \<noteq> []" "decode buf = Some t" "\<not> check_raw_data (d @ t)"
            by blast
          with h sel Readable rc Inr have "receive_loop w n (d @ t) s2 = Some c'" by simp
          from L [OF this] sel Readable rc Inr t show ?thesis
            by (simp del: receive_loop.simps(2)) (subst receive_loop.simps, simp del: receive_loop.simps)
        qed
      qed
    next
      case TimedOut
      with h sel obtain x where x: "disconnect w n (error (Error ''Socket timed out.'') s1) = Some x"
        by (auto split: option.splits)
      with h sel TimedOut D [OF x] show ?thesis
        by (simp del: disconnect.simps)
    next
      case (SelectRaises e)
      with h sel obtain x where x: "disconnect w n s1 = Some x"
        by (auto split: option.splits)
      with h sel SelectRaises D [OF x] show ?thesis
        by (simp del: disconnect.simps)
    qed
  qed
  from 1 2 3 4 show ?case by blast
qed

lemma fuel_mono:
  assumes "n \<le> m"
  shows "(disconnect w n s = Some a \<longrightarrow> disconnect w m s = Some a) \<and>
         (send w n q s = Some b \<longrightarrow> send w m q s = Some b) \<and>
         (receive w n s = Some c \<longrightarrow> receive w m s = Some c) \<and>
         (receive_loop w n d s = Some c' \<longrightarrow> receive_loop w m d s = Some c')"
  using assms
proof (induction m)
  case 0
  then show ?case by simp
next
  case (Suc m)
  show ?case
  proof (cases "n = Suc m")
    case True
    then show ?thesis by simp
  next
    case False
    with Suc.prems have "n \<le> m" by simp
    from Suc.IH [OF this] show ?thesis
      using fuel_step [of w m s _ q _ _ d] by blast
  qed
qed

lemma disconnect_fuel_agree:
  assumes "disconnect w n s = Some a" and "disconnect w m s = Some b"
  shows "a = b"
proof -
  have "disconnect w (max n m) s = Some a"
    using assms(1) fuel_mono [where n = n and m = "max n m" and w = w and s = s and a = a]
    by simp
  moreover have "disconnect w (max n m) s = Some b"
    using assms(2) fuel_mono [where n = m and m = "max n m" and w = w and s = s and a = b]
    by simp
  ultimately show ?thesis by simp
qed

section \<open>Teardown\<close>

lemma no_socket_diverges:
  "\<not> sock s \<Longrightarrow>
     disconnect w n s = None \<and> receive w n s = None \<and> receive_loop w n d s = None \<and>
     (request s \<noteq> [] \<longrightarrow> send w n req s = None)"
proof (induction n arbitrary: s d req)
  case 0
  show ?case by simp
next
  case (Suc n)
  note ns = Suc.prems
  have d: "disconnect w n s = None" and r: "receive w n s = None"
    and l: "\<And>d. receive_loop w n d s = None"
    and sn: "\<And>req. request s \<noteq> [] \<Longrightarrow> send w n req s = None"
    using Suc.IH [OF ns] by blast+
  have 1: "send w (Suc n) req s = None" if "request s \<noteq> []"
    using that ns d by (simp add: sock_send_def)
  have 2: "receive_loop w (Suc n) d s = None"
    using ns d by (simp add: sock_select_def)
  have 3: "receive w (Suc n) s = None"
    using l by simp
  have 4: "disconnect w (Suc n) s = None"
  proof (cases "request s = []")
    case True
    then have "send w n quit s = None \<or> send w n quit s = Some (Returns True s)"
      by (cases n) simp_all
    then show ?thesis using r by auto
  next
    case False
    then show ?thesis using sn by simp
  qed
  from 1 2 3 4 show ?case by blast
qed

lemma disconnect_closes:
  "disconnect w n s = Some (Returns u s') \<Longrightarrow> \<not> sock s'"
  by (cases n) (auto simp: super_disconnect_def split: option.splits outcome.splits)

text \<open>After a \<open>_disconnect\<close> that returned, a second one does not return.\<close>

lemma disconnect_twice:
  "disconnect w n s = Some (Returns u s') \<Longrightarrow> disconnect w m s' = None"
  using disconnect_closes no_socket_diverges by blast

text \<open>On a socket whose every \<open>send\<close> raises, \<open>_disconnect\<close> does not return either.\<close>

lemma dead_socket_diverges:
  assumes "\<And>k. send_result w k \<noteq> None"
  shows "request s \<noteq> [] \<Longrightarrow> disconnect w n s = None \<and> send w n req s = None"
proof (induction n arbitrary: s req)
  case 0
  show ?case by simp
next
  case (Suc n)
  have rq: "request s1 \<noteq> []" if "sock_send w p s = Inl (e, s1)" for p e s1
    using that Suc.prems by (auto simp: sock_send_def split: if_splits option.splits)
  have "sock_send w p s \<noteq> Inr s1" for p s1
    using assms [of "sends s"] by (auto simp: sock_send_def split: option.splits)
  then have "send w (Suc n) req s = None"
    using Suc.prems Suc.IH rq
    by (auto split: sum.splits prod.splits)
  moreover have "disconnect w (Suc n) s = None"
    using Suc.IH [OF Suc.prems] by simp
  ultimately show ?case by blast
qed

text \<open>
  C7 (the code at the failing input). On a session that never connected
  (\<open>self._sock is None\<close>), \<open>_disconnect\<close> does not return, whatever the transport and however
  much fuel: \<open>_send\<close> catches the AttributeError of \<open>None.send\<close> and calls \<open>_disconnect\<close>,
  which calls \<open>_send\<close> again. (CPython ends the recursion with a RecursionError.)
\<close>

theorem disconnect_never_connected: "disconnect w n init = None"
  using no_socket_diverges [of init w n] by (simp add: init_def)

text \<open>
  When the first \<open>send\<close> of \<open>_connect\<close> raises and the teardown that \<open>_send\<close> starts
  returns, \<open>_send\<close> returns \<open>False\<close>, \<open>_connect\<close> goes on to \<open>_receive\<close> on the closed
  socket, and does not return.
\<close>

lemma connect_failed_send_diverges:
  assumes "can_connect w" and "request s \<noteq> []" and "send_result w (sends s) = Some e"
    and "disconnect w m (s\<lparr>sock := True, sends := sends s + 1\<rparr>) = Some (Returns () s')"
  shows "connect w n s = None"
proof -
  let ?s0 = "super_connect w s"
  let ?s1 = "s\<lparr>sock := True, sends := sends s + 1\<rparr>"
  have ss: "sock_send w (login_cmd ?s0) ?s0 = Inl (e, ?s1)"
    using assms(1,3) by (simp add: sock_send_def super_connect_def)
  have rq: "request ?s0 \<noteq> []" "login_cmd ?s0 \<noteq> []"
    using assms(2) by (simp_all add: super_connect_def login_cmd_def)
  have "bind (send w n (login_cmd ?s0) ?s0) f = None"
    if f: "\<And>t. \<not> sock t \<Longrightarrow> f False t = None"
    for f :: "bool \<Rightarrow> service \<Rightarrow> unit outcome option"
  proof (cases n)
    case 0
    then show ?thesis by (simp add: bind_def)
  next
    case (Suc k)
    show ?thesis
    proof (cases "disconnect w k ?s1")
      case None
      with Suc ss rq show ?thesis by (simp add: bind_def)
    next
      case (Some y)
      with assms(4) have y: "y = Returns () s'"
        using disconnect_fuel_agree by blast
      have "\<not> sock (error (ErrorExn e) s')"
        using disconnect_closes [OF assms(4)] by (simp add: error_def)
      with Suc ss rq Some y f show ?thesis by (simp add: bind_def)
    qed
  qed
  moreover have "bind (receive w n t) g = None" if "\<not> sock t"
    for t and g :: "str \<Rightarrow> service \<Rightarrow> unit outcome option"
    using that no_socket_diverges [of t w n] by (simp add: bind_def)
  ultimately have "connect_try w n ?s0 = None"
    unfolding connect_try_def by simp
  then show ?thesis by (simp add: connect_def)
qed

section \<open>Timeouts\<close>





section \<open>Fragmented delivery\<close>

lemma utf8_Cons:
  "utf8 (b # bs) \<longleftrightarrow>
     (of_char b :: nat) < 128 \<and> utf8 bs \<or>
     (\<exists>c1 r. bs = c1 # r \<and> 194 \<le> (of_char b :: nat) \<and> (of_char b :: nat) \<le> 223 \<and>
        cont c1 \<and> utf8 r) \<or>
     (\<exists>c1 c2 r. bs = c1 # c2 # r \<and> 224 \<le> (of_char b :: nat) \<and> (of_char b :: nat) \<le> 239 \<and>
        second_of3 (of_char b) c1 \<and> cont c2 \<and> utf8 r) \<or>
     (\<exists>c1 c2 c3 r. bs = c1 # c2 # c3 # r \<and> 240 \<le> (of_char b :: nat) \<and>
        (of_char b :: nat) \<le> 244 \<and> second_of4 (of_char b) c1 \<and> cont c2 \<and> cont c3 \<and> utf8 r)"
  by (cases "b # bs" rule: utf8.cases) auto

lemma utf8_append: "utf8 a \<Longrightarrow> utf8 b \<Longrightarrow> utf8 (a @ b)"
proof (induction a rule: length_induct)
  case (1 a)
  show ?case
  proof (cases a)
    case Nil
    with 1 show ?thesis by simp
  next
    case (Cons x xs)
    have ih: "utf8 r \<Longrightarrow> length r < length a \<Longrightarrow> utf8 (r @ b)" for r
      using 1 by blast
    from 1(2) Cons have "utf8 (x # xs)" by simp
    then consider
        "(of_char x :: nat) < 128" "utf8 xs"
      | c1 r where "xs = c1 # r" "194 \<le> (of_char x :: nat)" "(of_char x :: nat) \<le> 223" "cont c1" "utf8 r"
      | c1 c2 r where "xs = c1 # c2 # r" "224 \<le> (of_char x :: nat)" "(of_char x :: nat) \<le> 239"
          "second_of3 (of_char x) c1" "cont c2" "utf8 r"
      | c1 c2 c3 r where "xs = c1 # c2 # c3 # r" "240 \<le> (of_char x :: nat)" "(of_char x :: nat) \<le> 244"
          "second_of4 (of_char x) c1" "cont c2" "cont c3" "utf8 r"
      unfolding utf8_Cons by blast
    then have "utf8 (x # (xs @ b))"
    proof cases
      case 1
      then show ?thesis using ih [of xs] Cons by (subst utf8_Cons) simp
    next
      case 2
      then show ?thesis using ih [of r] Cons by (subst utf8_Cons) simp
    next
      case 3
      then show ?thesis using ih [of r] Cons by (subst utf8_Cons) simp
    next
      case 4
      then show ?thesis using ih [of r] Cons by (subst utf8_Cons) simp
    qed
    with Cons show ?thesis by simp
  qed
qed

lemma utf8_concat: "\<forall>c \<in> set chunks. utf8 c \<Longrightarrow> utf8 (concat chunks)"
  by (induction chunks) (simp_all add: utf8_append)

lemma receive_loop_chunks:
  assumes "sock s"
    and "\<forall>i < length chunks. select_result w (selects s + i) = Readable \<and>
           recv_result w (recvs s + i) = Inr (chunks ! i)"
    and "\<forall>c \<in> set chunks. c \<noteq> [] \<and> utf8 c"
    and "chunks \<noteq> []"
    and "check_raw_data (data @ concat chunks)"
    and "\<forall>k. 0 < k \<and> k < length chunks \<longrightarrow> \<not> check_raw_data (data @ concat (take k chunks))"
  shows "receive_loop w (length chunks + m) data s =
           Some (Returns (data @ concat chunks)
             (s\<lparr>selects := selects s + length chunks, recvs := recvs s + length chunks\<rparr>))"
  using assms
proof (induction chunks arbitrary: data s)
  case Nil
  then show ?case by simp
next
  case (Cons c cs)
  let ?s2 = "s\<lparr>selects := selects s + 1, recvs := recvs s + 1\<rparr>"
  from Cons.prems(2) have sel: "select_result w (selects s) = Readable"
    and rcv: "recv_result w (recvs s) = Inr c" by fastforce+
  from Cons.prems(3) have c: "c \<noteq> []" "decode c = Some c" by (simp_all add: decode_def)
  show ?case
  proof (cases "cs = []")
    case True
    with Cons.prems(5) have "check_raw_data (data @ c)" by simp
    with True sel rcv c Cons.prems(1) show ?thesis
      by (simp add: sock_select_def sock_recv_def)
  next
    case False
    from Cons.prems(6) [rule_format, of 1] False have nc: "\<not> check_raw_data (data @ c)"
      by (cases cs) simp_all
    have step: "receive_loop w (length (c # cs) + m) data s =
        receive_loop w (length cs + m) (data @ c) ?s2"
      using sel rcv c nc Cons.prems(1) by (simp add: sock_select_def sock_recv_def)
    have p2: "\<forall>i < length cs. select_result w (selects ?s2 + i) = Readable \<and>
           recv_result w (recvs ?s2 + i) = Inr (cs ! i)"
    proof (intro allI impI)
      fix i assume "i < length cs"
      then have "Suc i < length (c # cs)" by simp
      from Cons.prems(2) [rule_format, OF this] show
        "select_result w (selects ?s2 + i) = Readable \<and> recv_result w (recvs ?s2 + i) = Inr (cs ! i)"
        by simp
    qed
    have p6: "\<forall>k. 0 < k \<and> k < length cs \<longrightarrow> \<not> check_raw_data ((data @ c) @ concat (take k cs))"
    proof (intro allI impI)
      fix k assume "0 < k \<and> k < length cs"
      then have "0 < Suc k \<and> Suc k < length (c # cs)" by simp
      from Cons.prems(6) [rule_format, OF this]
      show "\<not> check_raw_data ((data @ c) @ concat (take k cs))" by simp
    qed
    have "receive_loop w (length cs + m) (data @ c) ?s2 =
        Some (Returns ((data @ c) @ concat cs)
          (?s2\<lparr>selects := selects ?s2 + length cs, recvs := recvs ?s2 + length cs\<rparr>))"
      using Cons.prems by (intro Cons.IH p2 p6 False) simp_all
    with step show ?thesis by simp
  qed
qed

text \<open>
  C1 (as the code has it). Take a response text that ends in a terminator and a partition
  of it into non-empty chunks, each well-formed UTF-8 on its own, such that no proper
  initial run of the chunks already ends in a terminator. Delivered chunk by chunk,
  \<open>_receive\<close> returns exactly the full text, and so it does when the text comes in one
  piece.
\<close>

theorem receive_reassembles:
  assumes "chunks \<noteq> []" and "\<forall>c \<in> set chunks. c \<noteq> [] \<and> utf8 c"
    and "check_raw_data (concat chunks)"
    and "\<forall>k. 0 < k \<and> k < length chunks \<longrightarrow> \<not> check_raw_data (concat (take k chunks))"
  shows "\<exists>s1 s2.
     receive (deliver chunks) (Suc (length chunks + m)) connected =
       Some (Returns (concat chunks) s1) \<and>
     receive (deliver [concat chunks]) (Suc (Suc m)) connected =
       Some (Returns (concat chunks) s2)"
proof -
  have c: "sock connected" "selects connected = 0" "recvs connected = 0"
    by (simp_all add: connected_def init_def)
  have "receive_loop (deliver chunks) (length chunks + m) [] connected =
      Some (Returns ([] @ concat chunks)
        (connected\<lparr>selects := selects connected + length chunks,
           recvs := recvs connected + length chunks\<rparr>))"
    using assms c by (intro receive_loop_chunks) (simp_all add: deliver_def)
  then have 1: "\<exists>s1. receive (deliver chunks) (Suc (length chunks + m)) connected =
      Some (Returns (concat chunks) s1)"
    by simp
  from assms(1,2) have ne: "concat chunks \<noteq> []"
    by (cases chunks) auto
  from assms(2) have u: "utf8 (concat chunks)"
    by (simp add: utf8_concat)
  have "receive_loop (deliver [concat chunks]) (length [concat chunks] + m) [] connected =
      Some (Returns ([] @ concat [concat chunks])
        (connected\<lparr>selects := selects connected + length [concat chunks],
           recvs := recvs connected + length [concat chunks]\<rparr>))"
    using assms(3) c ne u by (intro receive_loop_chunks) (simp_all add: deliver_def)
  then have 2: "\<exists>s2. receive (deliver [concat chunks]) (Suc (Suc m)) connected =
      Some (Returns (concat chunks) s2)"
    by simp
  from 1 2 show ?thesis by blast
qed

lemma whole_chunks_ok:
  "whole_chunks \<noteq> [] \<and> (\<forall>c \<in> set whole_chunks. c \<noteq> [] \<and> utf8 c) \<and>
   check_raw_data (concat whole_chunks) \<and>
   (\<forall>k. 0 < k \<and> k < length whole_chunks \<longrightarrow> \<not> check_raw_data (concat (take k whole_chunks)))"
proof -
  have n1: "\<not> check_raw_data (concat (take 1 whole_chunks))"
    and n2: "\<not> check_raw_data (concat (take 2 whole_chunks))"
    by code_simp+
  have "\<not> check_raw_data (concat (take k whole_chunks))" if "0 < k \<and> k < length whole_chunks" for k
  proof -
    from that have "k = 1 \<or> k = 2" by (auto simp: whole_chunks_def)
    then show ?thesis using n1 n2 by blast
  qed
  moreover have "list_all (\<lambda>c. c \<noteq> [] \<and> utf8 c) whole_chunks"
    by code_simp
  then have "\<forall>c \<in> set whole_chunks. c \<noteq> [] \<and> utf8 c"
    by (simp add: list_all_iff)
  moreover have "check_raw_data (concat whole_chunks)"
    by code_simp
  moreover have "whole_chunks \<noteq> []"
    by (simp add: whole_chunks_def)
  ultimately show ?thesis by blast
qed

theorem receive_reassembles_witness:
  "whole_chunks \<noteq> [] \<and> check_raw_data (concat whole_chunks) \<and>
   (\<exists>s1 s2.
     receive (deliver whole_chunks) 4 connected = Some (Returns (concat whole_chunks) s1) \<and>
     receive (deliver [concat whole_chunks]) 2 connected =
       Some (Returns (concat whole_chunks) s2))"
proof -
  note ok = whole_chunks_ok
  from ok have 1: "whole_chunks \<noteq> []" and 2: "\<forall>c \<in> set whole_chunks. c \<noteq> [] \<and> utf8 c"
    and 3: "check_raw_data (concat whole_chunks)"
    and 4: "\<forall>k. 0 < k \<and> k < length whole_chunks \<longrightarrow>
               \<not> check_raw_data (concat (take k whole_chunks))"
    by blast+
  have l: "Suc (length whole_chunks + 0) = 4" "Suc (Suc 0) = 2"
    by (simp_all add: whole_chunks_def)
  from receive_reassembles [OF 1 2 3 4, of 0] 1 3 show ?thesis
    unfolding l by blast
qed

text \<open>
  The claim as written covers every partition into non-empty chunks. Two responses show
  where the code differs. The first holds an \<open>e\<close> with acute accent (bytes C3 A9) and
  arrives with the two bytes in different reads: the first of them is not UTF-8 on its own,
  and \<open>_receive\<close> raises UnicodeDecodeError, while the same bytes in one read are returned
  whole. The second holds a terminator inside: when a read ends right after it, \<open>_receive\<close>
  returns there, with the first part only.
\<close>

theorem receive_fragmented_counterexample:
  "check_raw_data (concat split_chunks) \<and>
   receive (deliver split_chunks) 9 connected =
     Some (Raises UnicodeDecodeError (connected\<lparr>selects := 2, recvs := 2\<rparr>)) \<and>
   receive (deliver [concat split_chunks]) 9 connected =
     Some (Returns (concat split_chunks) (connected\<lparr>selects := 1, recvs := 1\<rparr>)) \<and>
   check_raw_data (concat two_replies) \<and>
   receive (deliver two_replies) 9 connected =
     Some (Returns (''error id=0 msg=ok'' @ [LF, CR]) (connected\<lparr>selects := 1, recvs := 1\<rparr>)) \<and>
   receive (deliver [concat two_replies]) 9 connected =
     Some (Returns (concat two_replies) (connected\<lparr>selects := 1, recvs := 1\<rparr>))"
  by code_simp

section \<open>The connect sequence\<close>




lemma exchanged_fields [simp]:
  "sock (exchanged q s) = sock s" "request (exchanged q s) = request s"
  "sends (exchanged q s) = sends s + 1" "selects (exchanged q s) = selects s + 1"
  "recvs (exchanged q s) = recvs s + 1" "sent (exchanged q s) = sent s @ [q]"
  "logged (exchanged q s) = logged s" "channel_id (exchanged q s) = channel_id s"
  "login_cmd (exchanged q s) = login_cmd s" "use_cmd (exchanged q s) = use_cmd s"
  "clientupdate_cmd w (exchanged q s) = clientupdate_cmd w s"
  "clientmove_cmd c (exchanged q s) = clientmove_cmd c s"
  by (simp_all add: exchanged_def login_cmd_def use_cmd_def clientupdate_cmd_def
      clientmove_cmd_def)

lemma commands_nonempty [simp]:
  "login_cmd s \<noteq> []" "use_cmd s \<noteq> []" "clientupdate_cmd w s \<noteq> []" "whoami_cmd \<noteq> []"
  "clientmove_cmd c s \<noteq> []" "quit \<noteq> []"
  by (simp_all add: login_cmd_def use_cmd_def clientupdate_cmd_def whoami_cmd_def
      clientmove_cmd_def quit_def)





end
